theory Spec2Isabelle
  imports Main
begin

section \<open>Values exchanged with the agent\<close>

text \<open>
  Tool handlers return Python dictionaries that are later serialised as JSON.  A
  dictionary literal is an association list in the order the source writes its keys;
  \<open>map_of\<close> is the lookup \<open>d[key]\<close> / \<open>key in d\<close>.  Python \<open>str\<close> values are modelled
  as \<open>string\<close> (code points below 256), and \<open>len\<close> is \<open>length\<close>.  A \<open>datetime\<close> is a
  point on a discrete time line; \<open>JIso t\<close> stands for the text \<open>t.isoformat()\<close>.
\<close>

type_synonym datetime = nat

datatype json =
    JNull
  | JBool bool
  | JInt int
  | JStr string
  | JIso datetime
  | JList "json list"
  | JObj "(string \<times> json) list"

type_synonym pydict = "(string \<times> json) list"

section \<open>models/task.py and the task table\<close>

record task =
  task_id :: int
  task_title :: string
  task_description :: "string option"
  task_completed :: bool
  task_user_id :: int
  task_created_at :: datetime
  task_updated_at :: datetime

text \<open>
  The table \<open>tasks\<close>: its rows in insertion order, the next value of the autoincrement
  primary key, and the condition of the connection.  \<open>fault = Some e\<close> means that every
  statement sent through a session raises an exception whose \<open>str()\<close> is \<open>e\<close>.
\<close>

record task_store =
  tasks :: "task list"
  next_id :: int
  fault :: "string option"

text \<open>tools/mcp_server.py: \<open>MCPContext\<close>.  The engine is the store passed alongside.\<close>

record mcp_context =
  user_id :: int

text \<open>\<open>session.exec(select(Task).where(...)).first()\<close> and \<open>.all()\<close>.\<close>

definition exec_first :: "task_store \<Rightarrow> (task \<Rightarrow> bool) \<Rightarrow> string + task option" where
  "exec_first db P = (case fault db of Some e \<Rightarrow> Inl e | None \<Rightarrow> Inr (find P (tasks db)))"

definition exec_all :: "task_store \<Rightarrow> (task \<Rightarrow> bool) \<Rightarrow> string + task list" where
  "exec_all db P = (case fault db of Some e \<Rightarrow> Inl e | None \<Rightarrow> Inr (filter P (tasks db)))"

text \<open>
  \<open>session.add(task); session.commit(); session.refresh(task)\<close> for a new row (the key is
  assigned by the store), for a row loaded before (UPDATE by primary key), and
  \<open>session.delete(task); session.commit()\<close> (DELETE by primary key).
\<close>

definition commit_insert :: "task_store \<Rightarrow> task \<Rightarrow> string + (task \<times> task_store)" where
  "commit_insert db t =
     (case fault db of
        Some e \<Rightarrow> Inl e
      | None \<Rightarrow>
          (let t' = t\<lparr>task_id := next_id db\<rparr>
           in Inr (t', db\<lparr>tasks := tasks db @ [t'], next_id := next_id db + 1\<rparr>)))"

definition commit_update :: "task_store \<Rightarrow> task \<Rightarrow> string + (task \<times> task_store)" where
  "commit_update db t =
     (case fault db of
        Some e \<Rightarrow> Inl e
      | None \<Rightarrow>
          Inr (t, db\<lparr>tasks := map (\<lambda>r. if task_id r = task_id t then t else r) (tasks db)\<rparr>))"

definition commit_delete :: "task_store \<Rightarrow> task \<Rightarrow> string + task_store" where
  "commit_delete db t =
     (case fault db of
        Some e \<Rightarrow> Inl e
      | None \<Rightarrow> Inr (db\<lparr>tasks := filter (\<lambda>r. task_id r \<noteq> task_id t) (tasks db)\<rparr>))"

section \<open>Python string helpers\<close>

text \<open>\<open>str.isspace\<close> on code points below 256, the characters \<open>str.strip()\<close> removes.\<close>

definition is_space :: "char \<Rightarrow> bool" where
  "is_space c =
     (let n = of_char c :: nat
      in (9 \<le> n \<and> n \<le> 13) \<or> (28 \<le> n \<and> n \<le> 32) \<or> n = 133 \<or> n = 160)"

definition strip :: "string \<Rightarrow> string" where
  "strip s = rev (dropWhile is_space (rev (dropWhile is_space s)))"

section \<open>The six tool handlers (tools/*.py)\<close>

definition task_dict :: "task \<Rightarrow> pydict" where
  "task_dict t =
     [(''id'', JInt (task_id t)),
      (''title'', JStr (task_title t)),
      (''description'', (case task_description t of None \<Rightarrow> JNull | Some d \<Rightarrow> JStr d)),
      (''completed'', JBool (task_completed t)),
      (''created_at'', JIso (task_created_at t)),
      (''updated_at'', JIso (task_updated_at t))]"

definition error_result :: "string \<Rightarrow> pydict" where
  "error_result msg = [(''status'', JStr ''error''), (''error'', JStr msg)]"

text \<open>The \<open>except Exception as e\<close> clause of every handler but \<open>list_tasks\<close>.\<close>

definition database_error :: "string \<Rightarrow> pydict" where
  "database_error e = error_result (''Database error: '' @ e)"

definition owned_by :: "mcp_context \<Rightarrow> int \<Rightarrow> task \<Rightarrow> bool" where
  "owned_by ctx tid t \<longleftrightarrow> task_id t = tid \<and> task_user_id t = user_id ctx"

definition list_tasks_internal :: "mcp_context \<Rightarrow> task_store \<Rightarrow> pydict \<times> task_store" where
  "list_tasks_internal ctx db =
     (case exec_all db (\<lambda>t. task_user_id t = user_id ctx) of
        Inl e \<Rightarrow>
          ([(''status'', JStr ''error''),
            (''error'', JStr (''Database error: '' @ e)),
            (''tasks'', JList []),
            (''total'', JInt 0),
            (''completed_count'', JInt 0),
            (''pending_count'', JInt 0)], db)
      | Inr ts \<Rightarrow>
          ([(''tasks'', JList (map (\<lambda>t. JObj (task_dict t)) ts)),
            (''total'', JInt (int (length ts))),
            (''completed_count'', JInt (int (length (filter task_completed ts)))),
            (''pending_count'', JInt (int (length (filter (\<lambda>t. \<not> task_completed t) ts))))],
           db))"

text \<open>\<open>now_c\<close> and \<open>now_u\<close> are the two readings of \<open>datetime.utcnow()\<close>.\<close>

definition create_task_internal ::
  "mcp_context \<Rightarrow> string \<Rightarrow> string \<Rightarrow> datetime \<Rightarrow> datetime \<Rightarrow> task_store \<Rightarrow> pydict \<times> task_store" where
  "create_task_internal ctx title description now_c now_u db =
     (if title = [] \<or> strip title = [] then (error_result ''Title is required'', db)
      else let title' = strip title in
        if length title' > 200 then (error_result ''Title exceeds 200 characters'', db)
        else if description \<noteq> [] \<and> length description > 2000
          then (error_result ''Description exceeds 2000 characters'', db)
        else
          (case commit_insert db
                  \<lparr>task_id = 0, task_title = title',
                   task_description = (if description \<noteq> [] then Some description else None),
                   task_completed = False, task_user_id = user_id ctx,
                   task_created_at = now_c, task_updated_at = now_u\<rparr> of
             Inl e \<Rightarrow> (database_error e, db)
           | Inr (t, db') \<Rightarrow>
               ([(''status'', JStr ''success''), (''task'', JObj (task_dict t))], db')))"

definition get_task_internal :: "mcp_context \<Rightarrow> int \<Rightarrow> task_store \<Rightarrow> pydict \<times> task_store" where
  "get_task_internal ctx tid db =
     (if tid \<le> 0 then (error_result ''Invalid task ID'', db)
      else
        (case exec_first db (owned_by ctx tid) of
           Inl e \<Rightarrow> (database_error e, db)
         | Inr None \<Rightarrow> (error_result ''Task not found'', db)
         | Inr (Some t) \<Rightarrow>
             ([(''status'', JStr ''success''), (''task'', JObj (task_dict t))], db)))"

definition update_task_internal ::
  "mcp_context \<Rightarrow> int \<Rightarrow> string option \<Rightarrow> string option \<Rightarrow> datetime \<Rightarrow> task_store
     \<Rightarrow> pydict \<times> task_store" where
  "update_task_internal ctx tid title description now db =
     (if title = None \<and> description = None
        then (error_result ''No fields provided to update'', db)
      else let title' = map_option strip title in
        if title' = Some [] then (error_result ''Title cannot be empty'', db)
        else if (case title' of None \<Rightarrow> False | Some s \<Rightarrow> length s > 200)
          then (error_result ''Title exceeds 200 characters'', db)
        else if (case description of None \<Rightarrow> False | Some d \<Rightarrow> length d > 2000)
          then (error_result ''Description exceeds 2000 characters'', db)
        else
          (case exec_first db (owned_by ctx tid) of
             Inl e \<Rightarrow> (database_error e, db)
           | Inr None \<Rightarrow> (error_result ''Task not found'', db)
           | Inr (Some t) \<Rightarrow>
               (let t1 = (case title' of None \<Rightarrow> t | Some s \<Rightarrow> t\<lparr>task_title := s\<rparr>);
                    t2 = (case description of None \<Rightarrow> t1
                          | Some d \<Rightarrow> t1\<lparr>task_description := Some d\<rparr>);
                    t3 = t2\<lparr>task_updated_at := now\<rparr>
                in case commit_update db t3 of
                     Inl e \<Rightarrow> (database_error e, db)
                   | Inr (t4, db') \<Rightarrow>
                       ([(''status'', JStr ''success''), (''task'', JObj (task_dict t4))],
                        db'))))"

definition mark_complete_internal ::
  "mcp_context \<Rightarrow> int \<Rightarrow> datetime \<Rightarrow> task_store \<Rightarrow> pydict \<times> task_store" where
  "mark_complete_internal ctx tid now db =
     (case exec_first db (owned_by ctx tid) of
        Inl e \<Rightarrow> (database_error e, db)
      | Inr None \<Rightarrow> (error_result ''Task not found'', db)
      | Inr (Some t) \<Rightarrow>
          (case commit_update db
                  (t\<lparr>task_completed := \<not> task_completed t, task_updated_at := now\<rparr>) of
             Inl e \<Rightarrow> (database_error e, db)
           | Inr (t', db') \<Rightarrow>
               ([(''status'', JStr ''success''),
                 (''action'',
                    JStr (if task_completed t' then ''marked_complete''
                          else ''marked_incomplete'')),
                 (''task'', JObj (task_dict t'))], db')))"

definition delete_task_internal :: "mcp_context \<Rightarrow> int \<Rightarrow> task_store \<Rightarrow> pydict \<times> task_store" where
  "delete_task_internal ctx tid db =
     (case exec_first db (owned_by ctx tid) of
        Inl e \<Rightarrow> (database_error e, db)
      | Inr None \<Rightarrow> (error_result ''Task not found'', db)
      | Inr (Some t) \<Rightarrow>
          (case commit_delete db t of
             Inl e \<Rightarrow> (database_error e, db)
           | Inr db' \<Rightarrow>
               ([(''status'', JStr ''success''),
                 (''message'', JStr (''Task '' @ [CHR 0x27] @ task_title t @ [CHR 0x27]
                                     @ '' deleted successfully'')),
                 (''deleted_task_id'', JInt tid)], db')))"

section \<open>Notions used in the statements about the handlers\<close>

text \<open>
  The primary-key discipline of the table: no two rows share an id, the autoincrement
  counter is positive, and every id was issued by it (positive, below the next value).
\<close>

definition wf_store :: "task_store \<Rightarrow> bool" where
  "wf_store db \<longleftrightarrow>
     distinct (map task_id (tasks db)) \<and> 0 < next_id db \<and>
     list_all (\<lambda>t. 0 < task_id t \<and> task_id t < next_id db) (tasks db)"

definition toggled :: "datetime \<Rightarrow> task \<Rightarrow> task" where
  "toggled now r = r\<lparr>task_completed := \<not> task_completed r, task_updated_at := now\<rparr>"

text \<open>Reading a handler's result: \<open>result["status"]\<close>, \<open>result["tasks"]\<close>, \<open>entry["id"]\<close>.\<close>

definition has_status :: "pydict \<Rightarrow> bool" where
  "has_status r \<longleftrightarrow>
     map_of r ''status'' = Some (JStr ''success'') \<or> map_of r ''status'' = Some (JStr ''error'')"

definition listed_tasks :: "pydict \<Rightarrow> json list" where
  "listed_tasks r = (case map_of r ''tasks'' of Some (JList l) \<Rightarrow> l | _ \<Rightarrow> [])"

definition entry_id :: "json \<Rightarrow> json option" where
  "entry_id j = (case j of JObj d \<Rightarrow> map_of d ''id'' | _ \<Rightarrow> None)"

text \<open>
  The arguments \<open>update_task\<close> lets through its validation: at least one field, a title
  of 1 to 200 characters after trimming, a description of at most 2000 characters.
\<close>

definition update_fields_ok :: "string option \<Rightarrow> string option \<Rightarrow> bool" where
  "update_fields_ok title description \<longleftrightarrow>
     (title \<noteq> None \<or> description \<noteq> None) \<and>
     (case title of None \<Rightarrow> True | Some s \<Rightarrow> strip s \<noteq> [] \<and> length (strip s) \<le> 200) \<and>
     (case description of None \<Rightarrow> True | Some d \<Rightarrow> length d \<le> 2000)"

section \<open>The tool registry and the tool executor\<close>

text \<open>tools/__init__.py registers the six handlers with the global \<open>mcp_server\<close>.\<close>

datatype tool = ListTasks | CreateTask | MarkComplete | UpdateTask | DeleteTask | GetTask

definition mcp_server_tools :: "(string \<times> tool) list" where
  "mcp_server_tools =
     [(''list_tasks'', ListTasks),
      (''create_task'', CreateTask),
      (''mark_complete'', MarkComplete),
      (''update_task'', UpdateTask),
      (''delete_task'', DeleteTask),
      (''get_task'', GetTask)]"

definition get_tool :: "string \<Rightarrow> tool option" where
  "get_tool name = map_of mcp_server_tools name"

text \<open>Python exceptions with the text \<open>str(e)\<close> gives.\<close>

datatype py_exception = ValueError string | NameError string | OtherError string

fun str_of :: "py_exception \<Rightarrow> string" where
  "str_of (ValueError m) = m"
| "str_of (NameError n) = ''name '' @ [CHR 0x27] @ n @ [CHR 0x27] @ '' is not defined''"
| "str_of (OtherError m) = m"

text \<open>
  services/agent_service.py, \<open>AgentService.execute_tool\<close>.  The parameter \<open>call\<close> is
  \<open>await tool_func(self.mcp_context, **arguments)\<close>: it either raises or returns the
  handler's result, and may change the state \<open>'s\<close> it runs on.  The lookup and the
  \<open>raise ValueError\<close> come before the \<open>try\<close>.
\<close>

definition execute_tool ::
  "(tool \<Rightarrow> pydict \<Rightarrow> 's \<Rightarrow> (py_exception + pydict) \<times> 's) \<Rightarrow> string \<Rightarrow> pydict \<Rightarrow> 's
     \<Rightarrow> (py_exception + pydict) \<times> 's" where
  "execute_tool call tool_name arguments s =
     (case get_tool tool_name of
        None \<Rightarrow>
          (Inl (ValueError (''Tool '' @ [CHR 0x27] @ tool_name @ [CHR 0x27] @ '' not found'')), s)
      | Some tool_func \<Rightarrow>
          (case call tool_func arguments s of
             (Inr result, s') \<Rightarrow> (Inr result, s')
           | (Inl e, s') \<Rightarrow>
               (Inr [(''status'', JStr ''error''), (''error'', JStr (str_of e))], s')))"

text \<open>
  services/cohere_agent_service.py, \<open>CohereAgentService.execute_tool\<close>: here the lookup
  is inside the \<open>try\<close> and a missing tool is returned, not raised.
\<close>

definition cohere_execute_tool ::
  "(tool \<Rightarrow> pydict \<Rightarrow> 's \<Rightarrow> (py_exception + pydict) \<times> 's) \<Rightarrow> string \<Rightarrow> pydict \<Rightarrow> 's
     \<Rightarrow> (py_exception + pydict) \<times> 's" where
  "cohere_execute_tool call tool_name arguments s =
     (case get_tool tool_name of
        None \<Rightarrow>
          (Inr [(''error'',
                 JStr (''Tool '' @ [CHR 0x27] @ tool_name @ [CHR 0x27] @ '' not found''))], s)
      | Some tool_handler \<Rightarrow>
          (case call tool_handler arguments s of
             (Inr result, s') \<Rightarrow> (Inr result, s')
           | (Inl e, s') \<Rightarrow> (Inr [(''error'', JStr (str_of e))], s')))"

section \<open>Conversations and messages (models/conversation.py, models/message.py)\<close>

datatype message_role = USER | ASSISTANT

record conversation =
  conv_id :: int
  conv_user_id :: int
  conv_title :: "string option"
  conv_created_at :: datetime
  conv_updated_at :: datetime
  conv_deleted_at :: "datetime option"

record message =
  msg_id :: int
  msg_conversation_id :: int
  msg_role :: message_role
  msg_content :: string
  msg_tool_calls :: "json option"
  msg_sequence_number :: int
  msg_created_at :: datetime
  msg_deleted_at :: "datetime option"

text \<open>
  The two tables, rows in insertion order, with their autoincrement counters.  Where the
  service changes one attribute of a loaded row and commits, the session writes that
  column to the rows with the loaded primary key.
\<close>

record chat_store =
  conversations :: "conversation list"
  messages :: "message list"
  next_conversation_id :: int
  next_message_id :: int

section \<open>services/conversation_service.py\<close>

definition create_conversation :: "chat_store \<Rightarrow> int \<Rightarrow> datetime \<Rightarrow> conversation \<times> chat_store" where
  "create_conversation s uid now =
     (let c = \<lparr>conv_id = next_conversation_id s, conv_user_id = uid, conv_title = None,
               conv_created_at = now, conv_updated_at = now, conv_deleted_at = None\<rparr>
      in (c, s\<lparr>conversations := conversations s @ [c],
                next_conversation_id := next_conversation_id s + 1\<rparr>))"

definition get_conversation :: "chat_store \<Rightarrow> int \<Rightarrow> int \<Rightarrow> conversation option" where
  "get_conversation s cid uid =
     find (\<lambda>c. conv_id c = cid \<and> conv_user_id c = uid) (conversations s)"

text \<open>\<open>cascade_delete=True\<close>: deleting a conversation removes its messages.\<close>

definition delete_conversation :: "chat_store \<Rightarrow> int \<Rightarrow> int \<Rightarrow> bool \<times> chat_store" where
  "delete_conversation s cid uid =
     (case get_conversation s cid uid of
        None \<Rightarrow> (False, s)
      | Some c \<Rightarrow>
          (True, s\<lparr>conversations := filter (\<lambda>r. conv_id r \<noteq> conv_id c) (conversations s),
                   messages := filter (\<lambda>m. msg_conversation_id m \<noteq> conv_id c) (messages s)\<rparr>))"

text \<open>
  \<open>_get_next_sequence_number\<close>: \<open>select(func.max(Message.sequence_number))\<close> over all the
  messages of the conversation, soft-deleted ones included; SQL's \<open>MAX\<close> of no rows is
  \<open>NULL\<close>.
\<close>

definition sequence_numbers :: "chat_store \<Rightarrow> int \<Rightarrow> int list" where
  "sequence_numbers s cid =
     map msg_sequence_number (filter (\<lambda>m. msg_conversation_id m = cid) (messages s))"

definition max_sequence :: "chat_store \<Rightarrow> int \<Rightarrow> int option" where
  "max_sequence s cid =
     (if sequence_numbers s cid = [] then None else Some (Max (set (sequence_numbers s cid))))"

definition get_next_sequence_number :: "chat_store \<Rightarrow> int \<Rightarrow> int" where
  "get_next_sequence_number s cid =
     (case max_sequence s cid of None \<Rightarrow> 1 | Some m \<Rightarrow> m + 1)"

definition create_message ::
  "chat_store \<Rightarrow> int \<Rightarrow> int \<Rightarrow> message_role \<Rightarrow> string \<Rightarrow> json option \<Rightarrow> datetime
     \<Rightarrow> message option \<times> chat_store" where
  "create_message s cid uid role content tool_calls now =
     (case get_conversation s cid uid of
        None \<Rightarrow> (None, s)
      | Some c \<Rightarrow>
          (let m = \<lparr>msg_id = next_message_id s, msg_conversation_id = cid, msg_role = role,
                    msg_content = content, msg_tool_calls = tool_calls,
                    msg_sequence_number = get_next_sequence_number s cid,
                    msg_created_at = now, msg_deleted_at = None\<rparr>
           in (Some m,
               s\<lparr>messages := messages s @ [m],
                 conversations :=
                   map (\<lambda>r. if conv_id r = conv_id c then r\<lparr>conv_updated_at := now\<rparr> else r)
                     (conversations s),
                 next_message_id := next_message_id s + 1\<rparr>)))"

definition get_conversation_history :: "chat_store \<Rightarrow> int \<Rightarrow> int \<Rightarrow> bool \<Rightarrow> message list" where
  "get_conversation_history s cid uid include_deleted =
     (case get_conversation s cid uid of
        None \<Rightarrow> []
      | Some c \<Rightarrow>
          sort_key msg_sequence_number
            (filter (\<lambda>m. msg_conversation_id m = cid \<and>
                         (include_deleted \<or> msg_deleted_at m = None)) (messages s)))"

definition soft_delete_message ::
  "chat_store \<Rightarrow> int \<Rightarrow> int \<Rightarrow> int \<Rightarrow> datetime \<Rightarrow> bool \<times> chat_store" where
  "soft_delete_message s mid cid uid now =
     (case get_conversation s cid uid of
        None \<Rightarrow> (False, s)
      | Some c \<Rightarrow>
          (case find (\<lambda>m. msg_id m = mid \<and> msg_conversation_id m = cid) (messages s) of
             None \<Rightarrow> (False, s)
           | Some m \<Rightarrow>
               (True,
                s\<lparr>messages :=
                    map (\<lambda>r. if msg_id r = msg_id m then r\<lparr>msg_deleted_at := Some now\<rparr> else r)
                      (messages s)\<rparr>)))"

text \<open>A history of calls to the service, applied in order to a store.\<close>

datatype service_call =
    CreateConversation int datetime
  | DeleteConversation int int
  | CreateMessage int int message_role string "json option" datetime
  | SoftDeleteMessage int int int datetime

fun apply_call :: "service_call \<Rightarrow> chat_store \<Rightarrow> chat_store" where
  "apply_call (CreateConversation uid now) s = snd (create_conversation s uid now)"
| "apply_call (DeleteConversation cid uid) s = snd (delete_conversation s cid uid)"
| "apply_call (CreateMessage cid uid role content tool_calls now) s
     = snd (create_message s cid uid role content tool_calls now)"
| "apply_call (SoftDeleteMessage mid cid uid now) s = snd (soft_delete_message s mid cid uid now)"

definition run_calls :: "service_call list \<Rightarrow> chat_store \<Rightarrow> chat_store" where
  "run_calls calls s = fold apply_call calls s"

definition numbered :: "chat_store \<Rightarrow> bool" where
  "numbered s \<longleftrightarrow>
     (\<forall>cid. sequence_numbers s cid = [1 .. int (length (sequence_numbers s cid))])"

section \<open>api/chat.py\<close>

text \<open>
  The sequence number both chat endpoints compute for the user message:
  \<open>len(session.exec(select(Message).where(conversation_id == ..., deleted_at IS NULL)).all()) + 1\<close>.
\<close>

definition existing_message_count :: "chat_store \<Rightarrow> int \<Rightarrow> nat" where
  "existing_message_count s cid =
     length (filter (\<lambda>m. msg_conversation_id m = cid \<and> msg_deleted_at m = None) (messages s))"

definition next_sequence_number :: "chat_store \<Rightarrow> int \<Rightarrow> int" where
  "next_sequence_number s cid = int (existing_message_count s cid) + 1"

text \<open>schemas/chat.py: \<open>ChatRequest\<close>; the dictionary an agent's \<open>process_message\<close> returns.\<close>

record chat_request =
  request_message :: string
  request_conversation_id :: "int option"

record agent_response =
  response_content :: string
  response_tool_calls :: "json option"

datatype http_exception = HTTPException nat string

text \<open>
  The names bound in the module namespace of api/chat.py: its imports (lines 8 to 22),
  \<open>logger\<close>, \<open>router\<close> and the four endpoint functions.  Reading any other global name
  raises \<open>NameError\<close>.
\<close>

definition chat_module_names :: "string list" where
  "chat_module_names =
     [''APIRouter'', ''Depends'', ''HTTPException'', ''status'', ''Request'', ''Response'',
      ''StreamingResponse'', ''Session'', ''select'', ''Dict'', ''AsyncGenerator'',
      ''datetime'', ''json'', ''logging'', ''get_session'', ''get_current_user'',
      ''rate_limit_middleware'', ''Conversation'', ''Message'', ''MessageRole'',
      ''ChatRequest'', ''ChatResponse'', ''AgentService'', ''logger'', ''router'',
      ''chat'', ''chat_stream'', ''list_conversations'', ''get_conversation_messages'']"

definition load_global :: "string \<Rightarrow> py_exception + string" where
  "load_global name = (if name \<in> set chat_module_names then Inr name else Inl (NameError name))"

text \<open>\<open>session.add(x); session.commit(); session.refresh(x)\<close> for a new row.\<close>

definition insert_conversation :: "chat_store \<Rightarrow> conversation \<Rightarrow> conversation \<times> chat_store" where
  "insert_conversation s c =
     (let c' = c\<lparr>conv_id := next_conversation_id s\<rparr>
      in (c', s\<lparr>conversations := conversations s @ [c'],
                 next_conversation_id := next_conversation_id s + 1\<rparr>))"

definition insert_message :: "chat_store \<Rightarrow> message \<Rightarrow> message \<times> chat_store" where
  "insert_message s m =
     (let m' = m\<lparr>msg_id := next_message_id s\<rparr>
      in (m', s\<lparr>messages := messages s @ [m'], next_message_id := next_message_id s + 1\<rparr>))"

text \<open>
  The history handed to the agent: the last 20 messages that are not deleted, by
  \<open>created_at\<close> descending, then reversed; \<open>format_conversation_history\<close>.
\<close>

definition history_messages :: "chat_store \<Rightarrow> int \<Rightarrow> message list" where
  "history_messages s cid =
     rev (take 20 (rev (sort_key msg_created_at
       (filter (\<lambda>m. msg_conversation_id m = cid \<and> msg_deleted_at m = None) (messages s)))))"

fun role_value :: "message_role \<Rightarrow> string" where
  "role_value USER = ''user''"
| "role_value ASSISTANT = ''assistant''"

definition format_conversation_history :: "message list \<Rightarrow> (string \<times> string) list" where
  "format_conversation_history ms = map (\<lambda>m. (role_value (msg_role m), msg_content m)) ms"

text \<open>\<open>for i in range(0, len(content), chunk_size): chunk = content[i:i + chunk_size]\<close>\<close>

definition chunk_size :: nat where
  "chunk_size = 10"

function chunks :: "string \<Rightarrow> string list" where
  "chunks content =
     (if content = [] then [] else take chunk_size content # chunks (drop chunk_size content))"
  by pat_completeness auto
termination
  by (relation "measure length") (auto simp: chunk_size_def)

text \<open>The payloads of the server-sent events (\<open>data: <json>\<close>).\<close>

definition content_event :: "string \<Rightarrow> pydict" where
  "content_event chunk = [(''content'', JStr chunk), (''done'', JBool False)]"

definition error_event :: "string \<Rightarrow> pydict" where
  "error_event msg = [(''error'', JStr msg), (''done'', JBool True)]"

definition final_event :: "conversation \<Rightarrow> message \<Rightarrow> json option \<Rightarrow> pydict" where
  "final_event c m tool_calls =
     [(''done'', JBool True),
      (''conversation_id'', JInt (conv_id c)),
      (''message_id'', JInt (msg_id m)),
      (''tool_calls'', (case tool_calls of None \<Rightarrow> JNull | Some j \<Rightarrow> j)),
      (''timestamp'', JIso (msg_created_at m))]"

text \<open>
  \<open>chat_stream\<close> and its \<open>event_generator\<close>.  \<open>agent\<close> is \<open>process_message\<close> of the agent
  service the generator constructs, \<open>clock k\<close> the \<open>k\<close>-th reading of
  \<open>datetime.utcnow()\<close> in the function's text.  The result is the list of events yielded
  and the store left behind.
\<close>

definition load_or_create_conversation ::
  "int \<Rightarrow> chat_request \<Rightarrow> (nat \<Rightarrow> datetime) \<Rightarrow> chat_store \<Rightarrow> string + (conversation \<times> chat_store)" where
  "load_or_create_conversation uid request clock s =
     (case request_conversation_id request of
        Some cid \<Rightarrow>
          (if cid \<noteq> 0 then
             (case find (\<lambda>c. conv_id c = cid) (conversations s) of
                None \<Rightarrow> Inl ''Conversation not found''
              | Some c \<Rightarrow>
                  if conv_user_id c \<noteq> uid then Inl ''Conversation not found''
                  else if conv_deleted_at c \<noteq> None then Inl ''Conversation was deleted''
                  else Inr (c, s))
           else Inr (insert_conversation s
                  \<lparr>conv_id = 0, conv_user_id = uid, conv_title = None,
                   conv_created_at = clock 0, conv_updated_at = clock 1,
                   conv_deleted_at = None\<rparr>))
      | None \<Rightarrow>
          Inr (insert_conversation s
                 \<lparr>conv_id = 0, conv_user_id = uid, conv_title = None,
                  conv_created_at = clock 0, conv_updated_at = clock 1,
                  conv_deleted_at = None\<rparr>))"

definition event_generator ::
  "int \<Rightarrow> chat_request \<Rightarrow> (string \<Rightarrow> (string \<times> string) list \<Rightarrow> py_exception + agent_response)
     \<Rightarrow> (nat \<Rightarrow> datetime) \<Rightarrow> chat_store \<Rightarrow> pydict list \<times> chat_store" where
  "event_generator uid request agent clock s =
     (case load_or_create_conversation uid request clock s of
        Inl msg \<Rightarrow> ([error_event msg], s)
      | Inr (conversation, s1) \<Rightarrow>
          (let user_seq = next_sequence_number s1 (conv_id conversation);
               (user_message, s2) =
                  insert_message s1
                    \<lparr>msg_id = 0, msg_conversation_id = conv_id conversation, msg_role = USER,
                     msg_content = request_message request, msg_tool_calls = None,
                     msg_sequence_number = user_seq, msg_created_at = clock 2,
                     msg_deleted_at = None\<rparr>;
               conversation_history =
                  format_conversation_history (history_messages s2 (conv_id conversation))
           in case load_global ''CohereAgentService'' of
                Inl e \<Rightarrow> ([error_event (str_of e)], s2)
              | Inr agent_service \<Rightarrow>
                  (case agent (request_message request) (butlast conversation_history) of
                     Inl e \<Rightarrow> ([error_event (str_of e)], s2)
                   | Inr agent_response \<Rightarrow>
                       (let content = response_content agent_response;
                            (assistant_message, s3) =
                               insert_message s2
                                 \<lparr>msg_id = 0, msg_conversation_id = conv_id conversation,
                                  msg_role = ASSISTANT, msg_content = content,
                                  msg_tool_calls = response_tool_calls agent_response,
                                  msg_sequence_number = user_seq + 1,
                                  msg_created_at = clock 3, msg_deleted_at = None\<rparr>;
                            s4 = s3\<lparr>conversations :=
                                     map (\<lambda>r. if conv_id r = conv_id conversation
                                               then r\<lparr>conv_updated_at := clock 4\<rparr> else r)
                                       (conversations s3)\<rparr>
                        in (map content_event (chunks content)
                              @ [final_event conversation assistant_message
                                   (response_tool_calls agent_response)],
                            s4)))))"

definition chat_stream ::
  "int \<Rightarrow> chat_request \<Rightarrow> int
     \<Rightarrow> (string \<Rightarrow> (string \<times> string) list \<Rightarrow> py_exception + agent_response)
     \<Rightarrow> (nat \<Rightarrow> datetime) \<Rightarrow> chat_store \<Rightarrow> http_exception + (pydict list \<times> chat_store)" where
  "chat_stream uid request current_user_id agent clock s =
     (if current_user_id \<noteq> uid then Inl (HTTPException 403 ''Permission denied'')
      else Inr (event_generator uid request agent clock s))"

section \<open>Sample data\<close>

definition alice :: mcp_context where "alice = \<lparr>user_id = 1\<rparr>"

definition milk :: task where
  "milk = \<lparr>task_id = 1, task_title = ''Buy milk'', task_description = None,
          task_completed = False, task_user_id = 1, task_created_at = 10, task_updated_at = 10\<rparr>"

definition rent :: task where
  "rent = \<lparr>task_id = 2, task_title = ''Pay rent'', task_description = Some ''before Friday'',
          task_completed = True, task_user_id = 2, task_created_at = 11, task_updated_at = 12\<rparr>"

definition store2 :: task_store where
  "store2 = \<lparr>tasks = [milk, rent], next_id = 3, fault = None\<rparr>"

definition empty_chat_store :: chat_store where
  "empty_chat_store =
     \<lparr>conversations = [], messages = [], next_conversation_id = 1, next_message_id = 1\<rparr>"

definition sample_calls :: "service_call list" where
  "sample_calls =
     [CreateConversation 1 100,
      CreateMessage 1 1 USER ''add milk'' None 101,
      CreateMessage 1 1 ASSISTANT ''added'' None 102,
      CreateMessage 1 1 USER ''list my tasks'' None 103,
      SoftDeleteMessage 2 1 1 104]"

definition show_tasks_request :: chat_request where
  "show_tasks_request = \<lparr>request_message = ''show my tasks'', request_conversation_id = None\<rparr>"

section \<open>The tool handlers\<close>

subsection \<open>Lookups and updates by primary key\<close>

lemma same_id_same_row:
  "distinct (map task_id ts) \<Longrightarrow> a \<in> set ts \<Longrightarrow> b \<in> set ts \<Longrightarrow> task_id a = task_id b \<Longrightarrow> a = b"
  by (auto simp: distinct_map dest: inj_onD)

lemma find_other_user:
  assumes "distinct (map task_id ts)" "T \<in> set ts" "task_user_id T \<noteq> user_id ctx"
  shows "find (owned_by ctx (task_id T)) ts = None"
proof -
  have "\<not> owned_by ctx (task_id T) x" if "x \<in> set ts" for x
  proof
    assume o: "owned_by ctx (task_id T) x"
    then have "task_id x = task_id T" by (simp add: owned_by_def)
    with assms(1,2) that have "x = T"
      by (rule_tac same_id_same_row)
    with o assms(3) show False by (simp add: owned_by_def)
  qed
  then show ?thesis by (auto simp: find_None_iff)
qed

lemma find_absent_id:
  assumes "j \<notin> task_id ` set ts"
  shows "find (owned_by ctx j) ts = None"
  using assms by (auto simp: find_None_iff owned_by_def)

lemma find_own:
  assumes "distinct (map task_id ts)" "t \<in> set ts" "task_user_id t = user_id ctx"
  shows "find (owned_by ctx (task_id t)) ts = Some t"
  using assms
proof (induction ts)
  case Nil
  then show ?case by simp
next
  case (Cons a ts)
  show ?case
  proof (cases "a = t")
    case True
    with Cons.prems show ?thesis by (simp add: owned_by_def)
  next
    case False
    with Cons.prems have "t \<in> set ts" by simp
    with Cons.prems have "task_id a \<noteq> task_id t" by auto
    with Cons \<open>t \<in> set ts\<close> show ?thesis by (simp add: owned_by_def)
  qed
qed

lemma find_owned_by_sound:
  "find (owned_by ctx tid) ts = Some t \<Longrightarrow> t \<in> set ts \<and> task_id t = tid \<and> task_user_id t = user_id ctx"
  by (auto simp: find_Some_iff owned_by_def)

lemma replace_row:
  assumes "distinct (map task_id ts)" "t \<in> set ts"
  shows "map (\<lambda>r. if task_id r = task_id t then f t else r) ts
       = map (\<lambda>r. if task_id r = task_id t then f r else r) ts"
proof (rule map_cong[OF refl])
  fix r assume "r \<in> set ts"
  with assms have "task_id r = task_id t \<Longrightarrow> r = t"
    by (rule_tac same_id_same_row)
  then show "(if task_id r = task_id t then f t else r) = (if task_id r = task_id t then f r else r)"
    by auto
qed

lemma mark_complete_own:
  assumes "wf_store db" "fault db = None" "t \<in> set (tasks db)" "task_user_id t = user_id ctx"
  shows "mark_complete_internal ctx (task_id t) now db =
    ([(''status'', JStr ''success''),
      (''action'', JStr (if \<not> task_completed t then ''marked_complete'' else ''marked_incomplete'')),
      (''task'', JObj (task_dict (toggled now t)))],
     db\<lparr>tasks := map (\<lambda>r. if task_id r = task_id t then toggled now r else r) (tasks db)\<rparr>)"
proof -
  from assms have d: "distinct (map task_id (tasks db))" by (simp add: wf_store_def)
  have f: "find (owned_by ctx (task_id t)) (tasks db) = Some t"
    by (rule find_own[OF d assms(3,4)])
  have m: "map (\<lambda>r. if task_id r = task_id t then toggled now t else r) (tasks db)
      = map (\<lambda>r. if task_id r = task_id t then toggled now r else r) (tasks db)"
    by (rule replace_row[OF d assms(3)])
  have "mark_complete_internal ctx (task_id t) now db =
    ([(''status'', JStr ''success''),
      (''action'', JStr (if \<not> task_completed t then ''marked_complete'' else ''marked_incomplete'')),
      (''task'', JObj (task_dict (toggled now t)))],
     db\<lparr>tasks := map (\<lambda>r. if task_id r = task_id t then toggled now t else r) (tasks db)\<rparr>)"
    by (simp add: mark_complete_internal_def exec_first_def commit_update_def f assms(2) toggled_def)
  then show ?thesis by (simp only: m)
qed

lemma wf_store_toggled:
  assumes "wf_store db"
  shows "wf_store (db\<lparr>tasks := map (\<lambda>r. if task_id r = tid then toggled now r else r) (tasks db)\<rparr>)"
proof -
  have ids: "map (\<lambda>r. task_id (if task_id r = tid then toggled now r else r)) ts = map task_id ts" for ts
    by (induction ts) (simp_all add: toggled_def)
  show ?thesis
    using assms by (auto simp: wf_store_def o_def ids list_all_iff toggled_def)
qed

lemma toggled_twice: "toggled now' (toggled now t) = t\<lparr>task_updated_at := now'\<rparr>"
  by (simp add: toggled_def)

lemma wf_store_replace:
  assumes "wf_store db" and "task_id t' = k"
  shows "wf_store (db\<lparr>tasks := map (\<lambda>r. if task_id r = k then t' else r) (tasks db)\<rparr>)"
proof -
  have ids: "map (\<lambda>r. task_id (if task_id r = k then t' else r)) ts = map task_id ts" for ts
    using assms(2) by (induction ts) simp_all
  show ?thesis
    using assms by (auto simp: wf_store_def o_def ids list_all_iff)
qed

lemma wf_store_insert:
  assumes "wf_store db" and "task_id t' = next_id db"
  shows "wf_store (db\<lparr>tasks := tasks db @ [t'], next_id := next_id db + 1\<rparr>)"
proof -
  from assms(1) have low: "\<And>r. r \<in> set (tasks db) \<Longrightarrow> 0 < task_id r"
    and high: "\<And>r. r \<in> set (tasks db) \<Longrightarrow> task_id r < next_id db"
    and d: "distinct (map task_id (tasks db))" and pos: "0 < next_id db"
    by (auto simp: wf_store_def list_all_iff)
  have fresh: "next_id db \<notin> task_id ` set (tasks db)"
  proof
    assume "next_id db \<in> task_id ` set (tasks db)"
    then obtain r where "r \<in> set (tasks db)" "task_id r = next_id db" by auto
    with high[of r] show False by simp
  qed
  have high': "\<And>r. r \<in> set (tasks db) \<Longrightarrow> task_id r < next_id db + 1"
    using high by fastforce
  show ?thesis
    unfolding wf_store_def using d fresh low high' pos assms(2)
    by (simp add: list_all_iff)
qed

lemma wf_store_remove:
  assumes "wf_store db"
  shows "wf_store (db\<lparr>tasks := filter P (tasks db)\<rparr>)"
  using assms by (auto simp: wf_store_def list_all_iff distinct_map_filter)

text \<open>
  The handlers keep the primary-key discipline: from a well-formed table every one of
  them leads to a well-formed table.
\<close>

lemma handlers_preserve_wf_store:
  assumes "wf_store db"
  shows "wf_store (snd (list_tasks_internal ctx db))"
    and "wf_store (snd (create_task_internal ctx title description now_c now_u db))"
    and "wf_store (snd (get_task_internal ctx tid db))"
    and "wf_store (snd (update_task_internal ctx tid title' description' now db))"
    and "wf_store (snd (mark_complete_internal ctx tid now db))"
    and "wf_store (snd (delete_task_internal ctx tid db))"
proof -
  show "wf_store (snd (list_tasks_internal ctx db))"
    using assms by (simp add: list_tasks_internal_def split: sum.splits)
  show "wf_store (snd (create_task_internal ctx title description now_c now_u db))"
    using assms
    by (auto simp: create_task_internal_def commit_insert_def Let_def
          split: option.splits intro!: wf_store_insert)
  show "wf_store (snd (get_task_internal ctx tid db))"
    using assms by (simp add: get_task_internal_def split: sum.splits option.splits)
  show "wf_store (snd (update_task_internal ctx tid title' description' now db))"
  proof (cases "exec_first db (owned_by ctx tid)")
    case (Inl e)
    with assms show ?thesis by (simp add: update_task_internal_def Let_def)
  next
    case (Inr found)
    show ?thesis
    proof (cases found)
      case None
      with Inr assms show ?thesis by (simp add: update_task_internal_def Let_def)
    next
      case (Some t)
      with Inr have "fault db = None" and "find (owned_by ctx tid) (tasks db) = Some t"
        by (auto simp: exec_first_def split: option.splits)
      then have id: "task_id t = tid" using find_owned_by_sound by blast
      have "wf_store (snd (case commit_update db u of
                             Inl e \<Rightarrow> (database_error e, db)
                           | Inr (t4, db') \<Rightarrow> (r t4, db')))" if "task_id u = tid" for u r
        using wf_store_replace[OF assms that] assms
        by (simp add: commit_update_def that split: option.splits)
      then show ?thesis
        using Inr Some assms id
        by (cases title'; cases description') (simp_all add: update_task_internal_def Let_def)
    qed
  qed
  show "wf_store (snd (mark_complete_internal ctx tid now db))"
  proof (cases "exec_first db (owned_by ctx tid)")
    case (Inl e)
    with assms show ?thesis by (simp add: mark_complete_internal_def)
  next
    case (Inr found)
    show ?thesis
    proof (cases found)
      case None
      with Inr assms show ?thesis by (simp add: mark_complete_internal_def)
    next
      case (Some t)
      from wf_store_replace[OF assms, of "t\<lparr>task_completed := \<not> task_completed t, task_updated_at := now\<rparr>" "task_id t"]
      show ?thesis
        using Inr Some assms
        by (simp add: mark_complete_internal_def commit_update_def split: option.splits)
    qed
  qed
  show "wf_store (snd (delete_task_internal ctx tid db))"
    using assms wf_store_remove[OF assms]
    by (simp add: delete_task_internal_def commit_delete_def split: sum.splits option.splits)
qed

lemma wf_store2: "wf_store store2"
  by (simp add: wf_store_def store2_def milk_def rent_def)

subsection \<open>Isolation between users\<close>

lemma listed_tasks_list:
  "listed_tasks (fst (list_tasks_internal ctx db))
     = (case fault db of
          None \<Rightarrow> map (\<lambda>t. JObj (task_dict t)) (filter (\<lambda>t. task_user_id t = user_id ctx) (tasks db))
        | Some e \<Rightarrow> [])"
  by (simp add: listed_tasks_def list_tasks_internal_def exec_all_def split: option.splits)

lemma entry_id_task_dict: "entry_id (JObj (task_dict t)) = Some (JInt (task_id t))"
  by (simp add: entry_id_def task_dict_def)

text \<open>
  C1. Per-user isolation.  Let \<open>T\<close> be a task of another user than the context's and
  \<open>j\<close> an id that no task has.  Listing with the context never yields an entry with
  \<open>T\<close>'s id.  \<open>get_task\<close>, \<open>update_task\<close>, \<open>mark_complete\<close> and \<open>delete_task\<close> return on
  \<open>T\<close>'s id exactly what they return on \<open>j\<close>, and leave the store, hence \<open>T\<close>, as it
  was.  With a working store this common result is the \<open>Task not found\<close> error; for
  \<open>update_task\<close> it is so whenever the fields pass the validation that precedes the
  lookup.
\<close>

theorem per_user_isolation:
  assumes "wf_store db"
    and "T \<in> set (tasks db)" and "task_user_id T \<noteq> user_id ctx"
    and "j \<notin> task_id ` set (tasks db)" and "0 < j"
  shows "Some (JInt (task_id T)) \<notin> entry_id ` set (listed_tasks (fst (list_tasks_internal ctx db))) \<and>
         get_task_internal ctx (task_id T) db = get_task_internal ctx j db \<and>
         mark_complete_internal ctx (task_id T) now db = mark_complete_internal ctx j now db \<and>
         delete_task_internal ctx (task_id T) db = delete_task_internal ctx j db \<and>
         update_task_internal ctx (task_id T) title description now db
           = update_task_internal ctx j title description now db \<and>
         snd (get_task_internal ctx (task_id T) db) = db \<and>
         snd (mark_complete_internal ctx (task_id T) now db) = db \<and>
         snd (delete_task_internal ctx (task_id T) db) = db \<and>
         snd (update_task_internal ctx (task_id T) title description now db) = db \<and>
         (fault db = None \<longrightarrow>
            fst (get_task_internal ctx (task_id T) db) = error_result ''Task not found'' \<and>
            fst (mark_complete_internal ctx (task_id T) now db) = error_result ''Task not found'' \<and>
            fst (delete_task_internal ctx (task_id T) db) = error_result ''Task not found'' \<and>
            (update_fields_ok title description \<longrightarrow>
               fst (update_task_internal ctx (task_id T) title description now db)
                 = error_result ''Task not found''))"
proof -
  from assms(1) have d: "distinct (map task_id (tasks db))"
    and pos: "0 < task_id T"
    using assms(2) by (auto simp: wf_store_def list_all_iff)
  have nT: "find (owned_by ctx (task_id T)) (tasks db) = None"
    by (rule find_other_user[OF d assms(2,3)])
  have nj: "find (owned_by ctx j) (tasks db) = None"
    by (rule find_absent_id[OF assms(4)])
  have e1: "exec_first db (owned_by ctx (task_id T))
              = (case fault db of Some e \<Rightarrow> Inl e | None \<Rightarrow> Inr None)"
    by (simp add: exec_first_def nT split: option.splits)
  have e2: "exec_first db (owned_by ctx j)
              = (case fault db of Some e \<Rightarrow> Inl e | None \<Rightarrow> Inr None)"
    by (simp add: exec_first_def nj split: option.splits)
  have listing: "Some (JInt (task_id T)) \<notin> entry_id ` set (listed_tasks (fst (list_tasks_internal ctx db)))"
  proof
    assume "Some (JInt (task_id T)) \<in> entry_id ` set (listed_tasks (fst (list_tasks_internal ctx db)))"
    then obtain t where "t \<in> set (tasks db)" "task_user_id t = user_id ctx" "task_id t = task_id T"
      by (auto simp: listed_tasks_list entry_id_task_dict split: option.splits)
    with d assms(2) have "t = T" by (auto intro: same_id_same_row)
    with \<open>task_user_id t = user_id ctx\<close> assms(3) show False by simp
  qed
  have g: "get_task_internal ctx (task_id T) db = get_task_internal ctx j db"
    using pos assms(5) by (simp add: get_task_internal_def e1 e2)
  have m: "mark_complete_internal ctx (task_id T) now db = mark_complete_internal ctx j now db"
    unfolding mark_complete_internal_def e1 e2 by (rule refl)
  have dl: "delete_task_internal ctx (task_id T) db = delete_task_internal ctx j db"
    by (simp add: delete_task_internal_def e1 e2 split: option.splits)
  have u: "update_task_internal ctx (task_id T) title description now db
           = update_task_internal ctx j title description now db"
    unfolding update_task_internal_def e1 e2 by (rule refl)
  have sg: "snd (get_task_internal ctx (task_id T) db) = db"
    by (simp add: get_task_internal_def e1 split: option.splits)
  have sm: "snd (mark_complete_internal ctx (task_id T) now db) = db"
    by (simp add: mark_complete_internal_def e1 split: option.splits)
  have sd: "snd (delete_task_internal ctx (task_id T) db) = db"
    by (simp add: delete_task_internal_def e1 split: option.splits)
  have su: "snd (update_task_internal ctx (task_id T) title description now db) = db"
    by (cases title; cases description; cases "fault db")
       (simp_all add: update_task_internal_def e1 Let_def)
  have nf: "fst (get_task_internal ctx (task_id T) db) = error_result ''Task not found'' \<and>
            fst (mark_complete_internal ctx (task_id T) now db) = error_result ''Task not found'' \<and>
            fst (delete_task_internal ctx (task_id T) db) = error_result ''Task not found'' \<and>
            (update_fields_ok title description \<longrightarrow>
               fst (update_task_internal ctx (task_id T) title description now db)
                 = error_result ''Task not found'')"
    if "fault db = None"
  proof -
    have "fst (update_task_internal ctx (task_id T) title description now db)
            = error_result ''Task not found''" if "update_fields_ok title description"
      using that \<open>fault db = None\<close>
      by (cases title; cases description)
         (simp_all add: update_task_internal_def update_fields_ok_def e1 Let_def)
    then show ?thesis
      using pos that
      by (simp add: get_task_internal_def mark_complete_internal_def delete_task_internal_def e1)
  qed
  from listing g m dl u sg sm sd su nf show ?thesis by blast
qed

theorem per_user_isolation_witness:
  "get_task_internal alice 2 store2 = (error_result ''Task not found'', store2) \<and>
   get_task_internal alice 99 store2 = (error_result ''Task not found'', store2) \<and>
   mark_complete_internal alice 2 20 store2 = (error_result ''Task not found'', store2) \<and>
   mark_complete_internal alice 99 20 store2 = (error_result ''Task not found'', store2) \<and>
   delete_task_internal alice 2 store2 = (error_result ''Task not found'', store2) \<and>
   delete_task_internal alice 99 store2 = (error_result ''Task not found'', store2) \<and>
   update_task_internal alice 2 (Some ''Hacked'') None 20 store2
     = (error_result ''Task not found'', store2) \<and>
   update_task_internal alice 99 (Some ''Hacked'') None 20 store2
     = (error_result ''Task not found'', store2) \<and>
   Some (JInt 2) \<notin> entry_id ` set (listed_tasks (fst (list_tasks_internal alice store2)))"
proof -
  have nf: "fault store2 = None" and mem: "rent \<in> set (tasks store2)"
    and other: "task_user_id rent \<noteq> user_id alice" and id: "task_id rent = 2"
    and absent: "99 \<notin> task_id ` set (tasks store2)" and pos: "(0::int) < 99"
    by (simp_all add: store2_def milk_def rent_def alice_def)
  have ok: "update_fields_ok (Some ''Hacked'') None"
    by (simp add: update_fields_ok_def strip_def is_space_def)
  from per_user_isolation[OF wf_store2 mem other absent pos, of 20 "Some ''Hacked''" None] nf ok
  show ?thesis unfolding id by (metis prod.collapse)
qed

subsection \<open>The result envelope and the error messages\<close>

text \<open>
  C3 does not hold as the specification states it: the success result of \<open>list_tasks\<close> has no \<open>status\<close> key.
\<close>

theorem list_tasks_success_without_status:
  "map_of (fst (list_tasks_internal alice store2)) ''status'' = None \<and>
   \<not> has_status (fst (list_tasks_internal alice store2))"
  by (simp add: list_tasks_internal_def exec_all_def store2_def has_status_def)

lemma has_status_error_result: "has_status (error_result m)"
  by (simp add: has_status_def error_result_def)

lemma has_status_create:
  "has_status (fst (create_task_internal ctx title description now_c now_u db))"
  by (simp add: create_task_internal_def commit_insert_def database_error_def Let_def
        has_status_error_result split: option.splits)
     (simp add: has_status_def)

lemma has_status_get: "has_status (fst (get_task_internal ctx tid db))"
  by (auto simp: get_task_internal_def exec_first_def database_error_def
        has_status_error_result split: option.splits)
     (simp add: has_status_def)

lemma has_status_update:
  "has_status (fst (update_task_internal ctx tid title description now db))"
  by (auto simp: update_task_internal_def exec_first_def commit_update_def database_error_def
        Let_def has_status_error_result split: option.splits)
     (simp_all add: has_status_def)

lemma has_status_mark: "has_status (fst (mark_complete_internal ctx tid now db))"
  by (auto simp: mark_complete_internal_def exec_first_def commit_update_def database_error_def
        has_status_error_result split: option.splits)
     (simp_all add: has_status_def)

lemma has_status_delete: "has_status (fst (delete_task_internal ctx tid db))"
  by (auto simp: delete_task_internal_def exec_first_def commit_delete_def database_error_def
        has_status_error_result split: option.splits)
     (simp_all add: has_status_def)

text \<open>
  C3, amended.  Every result of \<open>create_task\<close>, \<open>get_task\<close>, \<open>update_task\<close>,
  \<open>mark_complete\<close> and \<open>delete_task\<close>, on success and on error, has a \<open>status\<close> key whose
  value is \<open>success\<close> or \<open>error\<close>.  The result of \<open>list_tasks\<close> has the key, with value
  \<open>error\<close>, when the store fails, and has no \<open>status\<close> key when the listing succeeds:
  its keys are then exactly \<open>tasks\<close>, \<open>total\<close>, \<open>completed_count\<close> and \<open>pending_count\<close>,
  holding the context user's tasks and their numbers; on a store failure they follow
  the keys \<open>status\<close> and \<open>error\<close>, with an empty list and zeros.
\<close>

theorem result_envelope:
  "has_status (fst (create_task_internal ctx title description now_c now_u db)) \<and>
   has_status (fst (get_task_internal ctx tid db)) \<and>
   has_status (fst (update_task_internal ctx tid title' description' now db)) \<and>
   has_status (fst (mark_complete_internal ctx tid now db)) \<and>
   has_status (fst (delete_task_internal ctx tid db)) \<and>
   map_of (fst (list_tasks_internal ctx db)) ''status''
     = (case fault db of None \<Rightarrow> None | Some e \<Rightarrow> Some (JStr ''error'')) \<and>
   map fst (fst (list_tasks_internal ctx db))
     = (case fault db of
          None \<Rightarrow> [''tasks'', ''total'', ''completed_count'', ''pending_count'']
        | Some e \<Rightarrow>
            [''status'', ''error'', ''tasks'', ''total'', ''completed_count'', ''pending_count'']) \<and>
   map snd (fst (list_tasks_internal ctx db))
     = (case fault db of
          None \<Rightarrow>
            [JList (map (\<lambda>t. JObj (task_dict t))
                      (filter (\<lambda>t. task_user_id t = user_id ctx) (tasks db))),
             JInt (int (length (filter (\<lambda>t. task_user_id t = user_id ctx) (tasks db)))),
             JInt (int (length (filter (\<lambda>t. task_user_id t = user_id ctx \<and> task_completed t)
                                  (tasks db)))),
             JInt (int (length (filter (\<lambda>t. task_user_id t = user_id ctx \<and> \<not> task_completed t)
                                  (tasks db))))]
        | Some e \<Rightarrow>
            [JStr ''error'', JStr (''Database error: '' @ e), JList [], JInt 0, JInt 0, JInt 0])"
proof -
  have st: "map_of (fst (list_tasks_internal ctx db)) ''status''
     = (case fault db of None \<Rightarrow> None | Some e \<Rightarrow> Some (JStr ''error''))"
    by (simp add: list_tasks_internal_def exec_all_def split: option.splits)
  have keys: "map fst (fst (list_tasks_internal ctx db))
     = (case fault db of
          None \<Rightarrow> [''tasks'', ''total'', ''completed_count'', ''pending_count'']
        | Some e \<Rightarrow>
            [''status'', ''error'', ''tasks'', ''total'', ''completed_count'', ''pending_count''])"
    by (simp add: list_tasks_internal_def exec_all_def split: option.splits)
  have both: "filter P (filter Q ts) = filter (\<lambda>t. Q t \<and> P t) ts" for P Q and ts :: "task list"
    by simp
  have vals: "map snd (fst (list_tasks_internal ctx db))
     = (case fault db of
          None \<Rightarrow>
            [JList (map (\<lambda>t. JObj (task_dict t))
                      (filter (\<lambda>t. task_user_id t = user_id ctx) (tasks db))),
             JInt (int (length (filter (\<lambda>t. task_user_id t = user_id ctx) (tasks db)))),
             JInt (int (length (filter (\<lambda>t. task_user_id t = user_id ctx \<and> task_completed t)
                                  (tasks db)))),
             JInt (int (length (filter (\<lambda>t. task_user_id t = user_id ctx \<and> \<not> task_completed t)
                                  (tasks db))))]
        | Some e \<Rightarrow>
            [JStr ''error'', JStr (''Database error: '' @ e), JList [], JInt 0, JInt 0, JInt 0])"
    by (simp add: list_tasks_internal_def exec_all_def both split: option.splits)
  from st keys vals show ?thesis
    by (simp only: has_status_create has_status_get has_status_update has_status_mark
          has_status_delete simp_thms)
qed

text \<open>
  C4. A store failure inside a tool handler (the specification asks for a generic message that does not
  embed the text of the exception).  Every handler reports \<open>Database error: \<close> followed by
  \<open>str(e)\<close>, whatever the text \<open>e\<close> of the store's exception is.
\<close>

theorem store_failure_message_embeds_exception:
  "create_task_internal ctx ''Buy milk'' [] now_c now_u (db\<lparr>fault := Some e\<rparr>)
     = ([(''status'', JStr ''error''), (''error'', JStr (''Database error: '' @ e))],
        db\<lparr>fault := Some e\<rparr>) \<and>
   get_task_internal ctx 1 (db\<lparr>fault := Some e\<rparr>)
     = ([(''status'', JStr ''error''), (''error'', JStr (''Database error: '' @ e))],
        db\<lparr>fault := Some e\<rparr>) \<and>
   update_task_internal ctx 1 (Some ''Buy oat milk'') None now (db\<lparr>fault := Some e\<rparr>)
     = ([(''status'', JStr ''error''), (''error'', JStr (''Database error: '' @ e))],
        db\<lparr>fault := Some e\<rparr>) \<and>
   mark_complete_internal ctx tid now (db\<lparr>fault := Some e\<rparr>)
     = ([(''status'', JStr ''error''), (''error'', JStr (''Database error: '' @ e))],
        db\<lparr>fault := Some e\<rparr>) \<and>
   delete_task_internal ctx tid (db\<lparr>fault := Some e\<rparr>)
     = ([(''status'', JStr ''error''), (''error'', JStr (''Database error: '' @ e))],
        db\<lparr>fault := Some e\<rparr>) \<and>
   map_of (fst (list_tasks_internal ctx (db\<lparr>fault := Some e\<rparr>))) ''error''
     = Some (JStr (''Database error: '' @ e))"
  by (simp add: create_task_internal_def get_task_internal_def update_task_internal_def
        mark_complete_internal_def delete_task_internal_def list_tasks_internal_def
        exec_first_def exec_all_def commit_insert_def database_error_def error_result_def
        strip_def is_space_def Let_def)

subsection \<open>mark_complete\<close>

text \<open>
  C6. Toggle law.  For a task owned by the context's user, one \<open>mark_complete\<close> call
  succeeds and returns the task with its completion flag inverted; a second call on the
  same task returns it with the original flag, and the table is then what it was before
  the first call except for that task's \<open>updated_at\<close>.
\<close>

theorem mark_complete_toggle:
  assumes "wf_store db" and "fault db = None"
    and "t \<in> set (tasks db)" and "task_user_id t = user_id ctx"
  shows "(case mark_complete_internal ctx (task_id t) now db of
            (r1, db1) \<Rightarrow>
              map_of r1 ''status'' = Some (JStr ''success'') \<and>
              map_of r1 ''task''
                = Some (JObj (task_dict
                     (t\<lparr>task_completed := \<not> task_completed t, task_updated_at := now\<rparr>))) \<and>
              (case mark_complete_internal ctx (task_id t) now' db1 of
                 (r2, db2) \<Rightarrow>
                   map_of r2 ''status'' = Some (JStr ''success'') \<and>
                   map_of r2 ''task'' = Some (JObj (task_dict (t\<lparr>task_updated_at := now'\<rparr>))) \<and>
                   tasks db2
                     = map (\<lambda>r. if task_id r = task_id t then r\<lparr>task_updated_at := now'\<rparr> else r)
                         (tasks db)))"
proof -
  let ?db1 = "db\<lparr>tasks := map (\<lambda>r. if task_id r = task_id t then toggled now r else r) (tasks db)\<rparr>"
  let ?t1 = "toggled now t"
  have first: "mark_complete_internal ctx (task_id t) now db =
    ([(''status'', JStr ''success''),
      (''action'', JStr (if \<not> task_completed t then ''marked_complete'' else ''marked_incomplete'')),
      (''task'', JObj (task_dict ?t1))], ?db1)"
    by (rule mark_complete_own[OF assms])
  have wf1: "wf_store ?db1" by (rule wf_store_toggled[OF assms(1)])
  have in1: "?t1 \<in> set (tasks ?db1)" using assms(3) by (auto simp: image_iff intro!: bexI[of _ t])
  have id1: "task_id ?t1 = task_id t" and u1: "task_user_id ?t1 = user_id ctx"
    using assms(4) by (simp_all add: toggled_def)
  have second: "mark_complete_internal ctx (task_id ?t1) now' ?db1 =
    ([(''status'', JStr ''success''),
      (''action'', JStr (if \<not> task_completed ?t1 then ''marked_complete'' else ''marked_incomplete'')),
      (''task'', JObj (task_dict (toggled now' ?t1)))],
     ?db1\<lparr>tasks := map (\<lambda>r. if task_id r = task_id ?t1 then toggled now' r else r) (tasks ?db1)\<rparr>)"
    by (rule mark_complete_own[OF wf1 _ in1 u1]) (simp add: assms(2))
  have undo: "map (\<lambda>r. if task_id r = task_id t then toggled now' r else r)
                (map (\<lambda>r. if task_id r = task_id t then toggled now r else r) ts)
            = map (\<lambda>r. if task_id r = task_id t then r\<lparr>task_updated_at := now'\<rparr> else r) ts" for ts
    by (induction ts) (simp_all add: toggled_def)
  show ?thesis
    using second unfolding id1 first
    by (simp add: undo toggled_twice) (simp add: toggled_def)
qed

theorem mark_complete_toggle_witness:
  "map_of (fst (mark_complete_internal alice 1 20 store2)) ''task''
     = Some (JObj (task_dict (milk\<lparr>task_completed := True, task_updated_at := 20\<rparr>))) \<and>
   map_of (fst (mark_complete_internal alice 1 21 (snd (mark_complete_internal alice 1 20 store2)))) ''task''
     = Some (JObj (task_dict (milk\<lparr>task_updated_at := 21\<rparr>)))"
proof -
  have nf: "fault store2 = None" and mem: "milk \<in> set (tasks store2)"
    and own: "task_user_id milk = user_id alice" and id: "task_id milk = 1"
    and c: "task_completed milk = False"
    by (simp_all add: store2_def milk_def alice_def)
  from mark_complete_toggle[OF wf_store2 nf mem own, of 20 21]
  show ?thesis unfolding id c by (simp split: prod.splits)
qed

lemma mark_complete_cases:
  assumes "mark_complete_internal ctx tid now db = (r, db')"
    and "map_of r ''status'' = Some (JStr ''success'')"
  shows "fault db = None \<and> (\<exists>t. find (owned_by ctx tid) (tasks db) = Some t)"
  using assms
  by (auto simp: mark_complete_internal_def exec_first_def commit_update_def
        error_result_def database_error_def split: option.splits)

text \<open>
  C10. Frame property of \<open>mark_complete\<close>.  After a successful call the table has the
  same rows in the same order; the row with the given id belongs to the context's user
  and differs from its old value only in \<open>completed\<close> (inverted) and \<open>updated_at\<close>; every
  other row, of any user, is unchanged, and so are the key counter and the connection.
\<close>

theorem mark_complete_frame:
  assumes "wf_store db"
    and "mark_complete_internal ctx tid now db = (r, db')"
    and "map_of r ''status'' = Some (JStr ''success'')"
  shows "list_all2
           (\<lambda>a b. task_id b = task_id a \<and> task_title b = task_title a \<and>
                  task_description b = task_description a \<and>
                  task_created_at b = task_created_at a \<and>
                  task_user_id b = task_user_id a \<and>
                  (if task_id a = tid
                   then task_user_id a = user_id ctx \<and>
                        task_completed b = (\<not> task_completed a) \<and> task_updated_at b = now
                   else b = a))
           (tasks db) (tasks db') \<and>
         next_id db' = next_id db \<and> fault db' = fault db"
proof -
  from mark_complete_cases[OF assms(2,3)] obtain t
    where nf: "fault db = None" and f: "find (owned_by ctx tid) (tasks db) = Some t"
    by blast
  from find_owned_by_sound[OF f]
  have t: "t \<in> set (tasks db)" "task_id t = tid" "task_user_id t = user_id ctx" by simp_all
  from assms(1) have d: "distinct (map task_id (tasks db))" by (simp add: wf_store_def)
  have own: "task_user_id a = user_id ctx" if "a \<in> set (tasks db)" "task_id a = tid" for a
  proof -
    from that t(1,2) d have "a = t" by (auto intro: same_id_same_row)
    with t(3) show ?thesis by simp
  qed
  from mark_complete_own[OF assms(1) nf t(1) t(3), of now] assms(2) t(2)
  have db': "db' = db\<lparr>tasks := map (\<lambda>r. if task_id r = tid then toggled now r else r) (tasks db)\<rparr>"
    by simp
  show ?thesis
    unfolding db' by (simp add: list_all2_map2 list_all2_same toggled_def own)
qed

theorem mark_complete_frame_witness:
  "tasks (snd (mark_complete_internal alice 1 20 store2))
     = [milk\<lparr>task_completed := True, task_updated_at := 20\<rparr>, rent]"
proof -
  obtain r db' where run: "mark_complete_internal alice 1 20 store2 = (r, db')"
    by (cases "mark_complete_internal alice 1 20 store2")
  then have ok: "map_of r ''status'' = Some (JStr ''success'')"
    by (auto simp: mark_complete_internal_def exec_first_def commit_update_def store2_def
          milk_def rent_def alice_def owned_by_def)
  from mark_complete_frame[OF wf_store2 run ok]
  have "list_all2
           (\<lambda>a b. task_id b = task_id a \<and> task_title b = task_title a \<and>
                  task_description b = task_description a \<and>
                  task_created_at b = task_created_at a \<and>
                  task_user_id b = task_user_id a \<and>
                  (if task_id a = 1
                   then task_user_id a = user_id alice \<and>
                        task_completed b = (\<not> task_completed a) \<and> task_updated_at b = 20
                   else b = a))
           [milk, rent] (tasks db')"
    by (simp add: store2_def)
  then have "tasks db' = [milk\<lparr>task_completed := True, task_updated_at := 20\<rparr>, rent]"
    by (auto simp: list_all2_Cons1 milk_def rent_def)
  with run show ?thesis by simp
qed

subsection \<open>update_task and create_task: input validation\<close>

text \<open>
  C7. An \<open>update_task\<close> call that supplies neither a title nor a description returns an
  error result and performs no mutation: the store, and so the task and its
  \<open>updated_at\<close>, is exactly what it was before the call.
\<close>

theorem update_task_no_fields:
  "update_task_internal ctx tid None None now db
     = ([(''status'', JStr ''error''), (''error'', JStr ''No fields provided to update'')], db)"
  by (simp add: update_task_internal_def error_result_def)

lemma strip_Nil: "strip [] = []"
  by (simp add: strip_def)

lemma create_task_accepts:
  assumes "fault db = None" and "strip title \<noteq> []" and "length (strip title) \<le> 200"
    and "length description \<le> 2000"
  shows "create_task_internal ctx title description now_c now_u db =
           ([(''status'', JStr ''success''),
             (''task'', JObj (task_dict
                \<lparr>task_id = next_id db, task_title = strip title,
                 task_description = (if description \<noteq> [] then Some description else None),
                 task_completed = False, task_user_id = user_id ctx,
                 task_created_at = now_c, task_updated_at = now_u\<rparr>))],
            db\<lparr>tasks := tasks db @
                 [\<lparr>task_id = next_id db, task_title = strip title,
                   task_description = (if description \<noteq> [] then Some description else None),
                   task_completed = False, task_user_id = user_id ctx,
                   task_created_at = now_c, task_updated_at = now_u\<rparr>],
               next_id := next_id db + 1\<rparr>)"
proof -
  from assms(2) have "title \<noteq> []" by (auto simp: strip_Nil)
  with assms show ?thesis
    by (simp add: create_task_internal_def commit_insert_def Let_def)
qed

lemma create_task_title_too_long:
  assumes "200 < length (strip title)"
  shows "create_task_internal ctx title description now_c now_u db
           = (error_result ''Title exceeds 200 characters'', db)"
proof -
  from assms have "strip title \<noteq> []" by auto
  moreover from this have "title \<noteq> []" by (auto simp: strip_Nil)
  ultimately have "strip title \<noteq> []" "title \<noteq> []" by simp_all
  with assms show ?thesis by (simp add: create_task_internal_def Let_def)
qed

lemma create_task_description_too_long:
  assumes "strip title \<noteq> []" and "length (strip title) \<le> 200" and "2000 < length description"
  shows "create_task_internal ctx title description now_c now_u db
           = (error_result ''Description exceeds 2000 characters'', db)"
proof -
  from assms(1) have "title \<noteq> []" by (auto simp: strip_Nil)
  moreover from assms(3) have "description \<noteq> []" by auto
  ultimately show ?thesis using assms by (simp add: create_task_internal_def Let_def)
qed

lemma update_task_accepts:
  assumes "fault db = None" and "find (owned_by ctx tid) (tasks db) = Some t"
    and "update_fields_ok title description"
  shows "map_of (fst (update_task_internal ctx tid title description now db)) ''status''
           = Some (JStr ''success'') \<and>
         map_of (fst (update_task_internal ctx tid title description now db)) ''task''
           = Some (JObj (task_dict
               (t\<lparr>task_title := (case title of None \<Rightarrow> task_title t | Some s \<Rightarrow> strip s),
                  task_description :=
                    (case description of None \<Rightarrow> task_description t | Some d \<Rightarrow> Some d),
                  task_updated_at := now\<rparr>)))"
  using assms
  by (cases title; cases description)
     (simp_all add: update_task_internal_def update_fields_ok_def exec_first_def
        commit_update_def Let_def)

lemma update_task_title_too_long:
  assumes "200 < length (strip s)"
  shows "update_task_internal ctx tid (Some s) description now db
           = (error_result ''Title exceeds 200 characters'', db)"
proof -
  from assms have "strip s \<noteq> []" by auto
  with assms show ?thesis by (simp add: update_task_internal_def Let_def)
qed

lemma update_task_description_too_long:
  assumes "case title of None \<Rightarrow> True | Some s \<Rightarrow> strip s \<noteq> [] \<and> length (strip s) \<le> 200"
    and "2000 < length d"
  shows "update_task_internal ctx tid title (Some d) now db
           = (error_result ''Description exceeds 2000 characters'', db)"
  using assms by (cases title) (simp_all add: update_task_internal_def Let_def)

text \<open>
  C8. Length boundaries.  With a working store and a task \<open>tid\<close> owned by the context's
  user: \<open>create_task\<close> accepts a title of exactly 200 characters after trimming together
  with a description of exactly 2000 characters and stores them, rejects a title of 201
  characters after trimming, and rejects a description of 2001 characters;
  \<open>update_task\<close> accepts and rejects at the same lengths, whether it is given the title,
  the description or both.  A rejection changes nothing.
\<close>

theorem length_boundaries:
  assumes "fault db = None" and "find (owned_by ctx tid) (tasks db) = Some t"
    and "length (strip t200) = 200" and "length (strip t201) = 201"
    and "length d2000 = 2000" and "length d2001 = 2001"
  shows "map_of (fst (create_task_internal ctx t200 d2000 now_c now_u db)) ''status''
           = Some (JStr ''success'') \<and>
         tasks (snd (create_task_internal ctx t200 d2000 now_c now_u db))
           = tasks db @
               [\<lparr>task_id = next_id db, task_title = strip t200, task_description = Some d2000,
                 task_completed = False, task_user_id = user_id ctx,
                 task_created_at = now_c, task_updated_at = now_u\<rparr>] \<and>
         create_task_internal ctx t201 description now_c now_u db
           = (error_result ''Title exceeds 200 characters'', db) \<and>
         create_task_internal ctx t200 d2001 now_c now_u db
           = (error_result ''Description exceeds 2000 characters'', db) \<and>
         map_of (fst (update_task_internal ctx tid (Some t200) None now db)) ''status''
           = Some (JStr ''success'') \<and>
         map_of (fst (update_task_internal ctx tid None (Some d2000) now db)) ''status''
           = Some (JStr ''success'') \<and>
         map_of (fst (update_task_internal ctx tid (Some t200) (Some d2000) now db)) ''task''
           = Some (JObj (task_dict
               (t\<lparr>task_title := strip t200, task_description := Some d2000,
                  task_updated_at := now\<rparr>))) \<and>
         update_task_internal ctx tid (Some t201) desc now db
           = (error_result ''Title exceeds 200 characters'', db) \<and>
         update_task_internal ctx tid None (Some d2001) now db
           = (error_result ''Description exceeds 2000 characters'', db) \<and>
         update_task_internal ctx tid (Some t200) (Some d2001) now db
           = (error_result ''Description exceeds 2000 characters'', db)"
proof -
  from assms(3) have t200: "strip t200 \<noteq> []" "length (strip t200) \<le> 200" by auto
  from assms(4) have t201: "200 < length (strip t201)" by simp
  from assms(5) have d2000: "length d2000 \<le> 2000" "d2000 \<noteq> []" by auto
  from assms(6) have d2001: "2000 < length d2001" by simp
  have c1: "map_of (fst (create_task_internal ctx t200 d2000 now_c now_u db)) ''status''
           = Some (JStr ''success'')"
    by (simp add: create_task_accepts[OF assms(1) t200 d2000(1)])
  have c2: "tasks (snd (create_task_internal ctx t200 d2000 now_c now_u db))
           = tasks db @
               [\<lparr>task_id = next_id db, task_title = strip t200, task_description = Some d2000,
                 task_completed = False, task_user_id = user_id ctx,
                 task_created_at = now_c, task_updated_at = now_u\<rparr>]"
    by (simp add: create_task_accepts[OF assms(1) t200 d2000(1)] d2000(2))
  have c3: "create_task_internal ctx t201 description now_c now_u db
           = (error_result ''Title exceeds 200 characters'', db)"
    by (rule create_task_title_too_long[OF t201])
  have c4: "create_task_internal ctx t200 d2001 now_c now_u db
           = (error_result ''Description exceeds 2000 characters'', db)"
    by (rule create_task_description_too_long[OF t200 d2001])
  have ok1: "update_fields_ok (Some t200) None" and ok2: "update_fields_ok None (Some d2000)"
    and ok3: "update_fields_ok (Some t200) (Some d2000)"
    using t200 d2000 by (simp_all add: update_fields_ok_def)
  have u1: "map_of (fst (update_task_internal ctx tid (Some t200) None now db)) ''status''
           = Some (JStr ''success'')"
    using update_task_accepts[OF assms(1,2) ok1] by blast
  have u2: "map_of (fst (update_task_internal ctx tid None (Some d2000) now db)) ''status''
           = Some (JStr ''success'')"
    using update_task_accepts[OF assms(1,2) ok2] by blast
  have u3: "map_of (fst (update_task_internal ctx tid (Some t200) (Some d2000) now db)) ''task''
           = Some (JObj (task_dict
               (t\<lparr>task_title := strip t200, task_description := Some d2000,
                  task_updated_at := now\<rparr>)))"
    using update_task_accepts[OF assms(1,2) ok3, of now] by simp
  have u4: "update_task_internal ctx tid (Some t201) desc now db
           = (error_result ''Title exceeds 200 characters'', db)"
    by (rule update_task_title_too_long[OF t201])
  have u5: "update_task_internal ctx tid None (Some d2001) now db
           = (error_result ''Description exceeds 2000 characters'', db)"
    by (rule update_task_description_too_long[OF _ d2001]) simp
  have u6: "update_task_internal ctx tid (Some t200) (Some d2001) now db
           = (error_result ''Description exceeds 2000 characters'', db)"
    by (rule update_task_description_too_long[OF _ d2001]) (simp add: t200)
  from c1 c2 c3 c4 u1 u2 u3 u4 u5 u6 show ?thesis by blast
qed

lemma strip_replicate: "\<not> is_space c \<Longrightarrow> strip (replicate n c) = replicate n c"
proof -
  assume c: "\<not> is_space c"
  have "dropWhile is_space (replicate n c) = replicate n c" for n
    using c by (cases n) simp_all
  then show ?thesis by (simp add: strip_def)
qed

lemma strip_padded:
  "\<not> is_space c \<Longrightarrow> strip ('' '' @ replicate (Suc n) c @ [CHR 0x0A]) = replicate (Suc n) c"
  by (simp add: strip_def is_space_def replicate_append_same)

theorem length_boundaries_witness:
  "map_of (fst (create_task_internal alice ('' '' @ replicate 200 (CHR ''a'') @ [CHR 0x0A])
                  (replicate 2000 (CHR ''d'')) 20 20 store2)) ''status''
     = Some (JStr ''success'') \<and>
   create_task_internal alice (replicate 201 (CHR ''a'')) [] 20 20 store2
     = (error_result ''Title exceeds 200 characters'', store2) \<and>
   create_task_internal alice ('' '' @ replicate 200 (CHR ''a'') @ [CHR 0x0A])
        (replicate 2001 (CHR ''d'')) 20 20 store2
     = (error_result ''Description exceeds 2000 characters'', store2) \<and>
   map_of (fst (update_task_internal alice 1 None (Some (replicate 2000 (CHR ''d''))) 20 store2))
        ''status''
     = Some (JStr ''success'') \<and>
   update_task_internal alice 1 (Some (replicate 201 (CHR ''a''))) None 20 store2
     = (error_result ''Title exceeds 200 characters'', store2) \<and>
   update_task_internal alice 1 None (Some (replicate 2001 (CHR ''d''))) 20 store2
     = (error_result ''Description exceeds 2000 characters'', store2)"
proof -
  have a: "\<not> is_space (CHR ''a'')" by (simp add: is_space_def)
  have nf: "fault store2 = None" by (simp add: store2_def)
  have own: "find (owned_by alice 1) (tasks store2) = Some milk"
    by (simp add: store2_def milk_def alice_def owned_by_def)
  have "strip ('' '' @ replicate (Suc 199) (CHR ''a'') @ [CHR 0x0A]) = replicate (Suc 199) (CHR ''a'')"
    by (rule strip_padded[OF a])
  then have t200: "length (strip ('' '' @ replicate 200 (CHR ''a'') @ [CHR 0x0A])) = 200"
    by simp
  have t201: "length (strip (replicate 201 (CHR ''a''))) = 201"
    by (simp add: strip_replicate[OF a])
  have d2000: "length (replicate 2000 (CHR ''d'')) = 2000"
    and d2001: "length (replicate 2001 (CHR ''d'')) = 2001" by simp_all
  from length_boundaries[OF nf own t200 t201 d2000 d2001, of 20 20 "[]" 20 None]
  show ?thesis by blast
qed

section \<open>The tool executor\<close>

text \<open>
  C2. Unknown tool name (the specification asks for a structured error result and no exception).
  \<open>AgentService.execute_tool\<close> raises \<open>ValueError\<close> for a name that is not registered, where
  \<open>CohereAgentService.execute_tool\<close> returns an error dictionary.
\<close>

theorem execute_tool_unknown_name_raises:
  "execute_tool call ''nonexistent_tool'' arguments s
     = (Inl (ValueError (''Tool '' @ [CHR 0x27] @ ''nonexistent_tool'' @ [CHR 0x27] @ '' not found'')), s) \<and>
   cohere_execute_tool call ''nonexistent_tool'' arguments s
     = (Inr [(''error'',
              JStr (''Tool '' @ [CHR 0x27] @ ''nonexistent_tool'' @ [CHR 0x27] @ '' not found''))], s)"
  by (simp add: execute_tool_def cohere_execute_tool_def get_tool_def mcp_server_tools_def)

section \<open>Message sequence numbers\<close>

lemma max_upto: "1 \<le> n \<Longrightarrow> Max (set [1..n]) = (n::int)"
  by (auto intro!: Max_eqI)

lemma next_of_numbered:
  assumes "sequence_numbers s cid = [1 .. int (length (sequence_numbers s cid))]"
  shows "get_next_sequence_number s cid = int (length (sequence_numbers s cid)) + 1"
proof (cases "sequence_numbers s cid = []")
  case True
  then show ?thesis by (simp add: get_next_sequence_number_def max_sequence_def)
next
  case False
  then have pos: "1 \<le> int (length (sequence_numbers s cid))" by (cases "sequence_numbers s cid") simp_all
  have "Max (set (sequence_numbers s cid)) = int (length (sequence_numbers s cid))"
    by (subst assms) (rule max_upto[OF pos])
  with False show ?thesis by (simp add: get_next_sequence_number_def max_sequence_def)
qed

lemma numbered_create_conversation:
  "numbered s \<Longrightarrow> numbered (snd (create_conversation s uid now))"
  by (simp add: numbered_def create_conversation_def sequence_numbers_def Let_def)

lemma numbered_delete_conversation:
  assumes "numbered s"
  shows "numbered (snd (delete_conversation s cid uid))"
proof (cases "get_conversation s cid uid")
  case None
  with assms show ?thesis by (simp add: delete_conversation_def)
next
  case (Some c)
  have other: "filter (\<lambda>x. msg_conversation_id x \<noteq> conv_id c \<and> msg_conversation_id x = k) ms
        = filter (\<lambda>m. msg_conversation_id m = k) ms" if "k \<noteq> conv_id c" for k ms
    using that by (intro filter_cong) auto
  have seqs: "sequence_numbers (snd (delete_conversation s cid uid)) k
      = (if k = conv_id c then [] else sequence_numbers s k)" for k
    by (simp add: delete_conversation_def Some sequence_numbers_def other)
  show ?thesis
    unfolding numbered_def
  proof
    fix k
    from assms have "sequence_numbers s k = [1 .. int (length (sequence_numbers s k))]"
      by (simp add: numbered_def)
    then show "sequence_numbers (snd (delete_conversation s cid uid)) k
        = [1 .. int (length (sequence_numbers (snd (delete_conversation s cid uid)) k))]"
      by (simp add: seqs)
  qed
qed

lemma sequence_numbers_mark_deleted:
  "map msg_sequence_number (filter (\<lambda>m. msg_conversation_id m = k)
          (map (\<lambda>r. if msg_id r = i then r\<lparr>msg_deleted_at := Some now\<rparr> else r) ms))
      = map msg_sequence_number (filter (\<lambda>m. msg_conversation_id m = k) ms)"
  by (induction ms) auto

lemma sequence_numbers_soft_delete:
  "sequence_numbers (snd (soft_delete_message s mid cid uid now)) k = sequence_numbers s k"
  by (simp add: soft_delete_message_def sequence_numbers_def sequence_numbers_mark_deleted
        split: option.splits)

lemma numbered_soft_delete:
  "numbered s \<Longrightarrow> numbered (snd (soft_delete_message s mid cid uid now))"
  by (simp add: numbered_def sequence_numbers_soft_delete)

lemma sequence_numbers_create_message:
  assumes "get_conversation s cid uid = Some c"
  shows "sequence_numbers (snd (create_message s cid uid role content tool_calls now)) k
      = (if k = cid then sequence_numbers s cid @ [get_next_sequence_number s cid]
         else sequence_numbers s k)"
  using assms by (simp add: create_message_def sequence_numbers_def Let_def)

lemma numbered_create_message:
  assumes "numbered s"
  shows "numbered (snd (create_message s cid uid role content tool_calls now))"
proof (cases "get_conversation s cid uid")
  case None
  with assms show ?thesis by (simp add: create_message_def)
next
  case (Some c)
  show ?thesis
    unfolding numbered_def
  proof
    fix k
    from assms have old: "sequence_numbers s k = [1 .. int (length (sequence_numbers s k))]" for k
      by (simp add: numbered_def)
    show "sequence_numbers (snd (create_message s cid uid role content tool_calls now)) k
        = [1 .. int (length (sequence_numbers (snd (create_message s cid uid role content tool_calls now)) k))]"
    proof (cases "k = cid")
      case False
      with old[of k] show ?thesis by (simp add: sequence_numbers_create_message[OF Some])
    next
      case True
      let ?n = "int (length (sequence_numbers s cid))"
      have "[1 .. ?n + 1] = [1 .. ?n] @ [?n + 1]"
        using upto_rec2[of 1 "?n + 1"] by simp
      with old[of cid] have "sequence_numbers s cid @ [?n + 1] = [1 .. ?n + 1]" by simp
      then show ?thesis
        by (simp add: True sequence_numbers_create_message[OF Some] next_of_numbered[OF old] add.commute)
    qed
  qed
qed

lemma numbered_apply_call: "numbered s \<Longrightarrow> numbered (apply_call c s)"
  by (cases c)
     (simp_all add: numbered_create_conversation numbered_delete_conversation
        numbered_create_message numbered_soft_delete)

lemma numbered_run_calls: "numbered s \<Longrightarrow> numbered (run_calls calls s)"
  unfolding run_calls_def by (induction calls arbitrary: s) (simp_all add: numbered_apply_call)

lemma numbered_no_messages: "messages s = [] \<Longrightarrow> numbered s"
  by (simp add: numbered_def sequence_numbers_def)

lemma history_all_numbers:
  assumes "numbered s"
  shows "map msg_sequence_number (get_conversation_history s cid uid True)
       = [1 .. int (length (get_conversation_history s cid uid True))]"
proof (cases "get_conversation s cid uid")
  case None
  then show ?thesis by (simp add: get_conversation_history_def)
next
  case (Some c)
  let ?ms = "filter (\<lambda>m. msg_conversation_id m = cid) (messages s)"
  from assms have n: "map msg_sequence_number ?ms = [1 .. int (length ?ms)]"
    by (simp add: numbered_def sequence_numbers_def)
  then have "sorted (map msg_sequence_number ?ms)" by (simp only: sorted_upto)
  then have "sort_key msg_sequence_number ?ms = ?ms" by (rule sort_key_id_if_sorted)
  with n show ?thesis by (simp add: get_conversation_history_def Some)
qed

lemma history_active_increasing:
  assumes "numbered s"
  shows "sorted_wrt (<) (map msg_sequence_number (get_conversation_history s cid uid False))"
proof (cases "get_conversation s cid uid")
  case None
  then show ?thesis by (simp add: get_conversation_history_def)
next
  case (Some c)
  let ?ms = "filter (\<lambda>m. msg_conversation_id m = cid) (messages s)"
  let ?act = "filter (\<lambda>m. msg_conversation_id m = cid \<and> msg_deleted_at m = None) (messages s)"
  from assms have "map msg_sequence_number ?ms = [1 .. int (length ?ms)]"
    by (simp add: numbered_def sequence_numbers_def)
  then have "sorted_wrt (<) (map msg_sequence_number ?ms)" by (simp only: sorted_wrt_upto)
  then have "sorted_wrt (\<lambda>a b. msg_sequence_number a < msg_sequence_number b) ?ms"
    by (simp add: sorted_wrt_map)
  then have "sorted_wrt (\<lambda>a b. msg_sequence_number a < msg_sequence_number b)
               (filter (\<lambda>m. msg_deleted_at m = None) ?ms)"
    by (rule sorted_wrt_filter)
  moreover have "filter (\<lambda>m. msg_deleted_at m = None) ?ms = ?act"
    by (simp add: conj_commute)
  ultimately have strict: "sorted_wrt (<) (map msg_sequence_number ?act)"
    by (simp add: sorted_wrt_map)
  then have "sorted (map msg_sequence_number ?act)" by (simp add: strict_sorted_iff)
  then have "sort_key msg_sequence_number ?act = ?act" by (rule sort_key_id_if_sorted)
  with strict show ?thesis by (simp add: get_conversation_history_def Some)
qed

text \<open>
  C5 does not hold as the specification states it.  After three messages and the soft
  deletion of the second, the messages that are not deleted carry the numbers 1 and 3;
  \<open>create_message\<close> would number the next message 4, and the chat endpoints would
  number it 3, a number that is already taken.
\<close>

theorem sequence_gap_after_soft_delete:
  "map msg_sequence_number
     (get_conversation_history (run_calls sample_calls empty_chat_store) 1 1 False) = [1, 3] \<and>
   get_next_sequence_number (run_calls sample_calls empty_chat_store) 1 = 4 \<and>
   next_sequence_number (run_calls sample_calls empty_chat_store) 1 = 3"
  by (simp add: sample_calls_def run_calls_def empty_chat_store_def create_conversation_def
       create_message_def soft_delete_message_def get_conversation_def get_conversation_history_def
       get_next_sequence_number_def max_sequence_def sequence_numbers_def Let_def
       next_sequence_number_def existing_message_count_def)

text \<open>
  C5, amended.  \<open>ConversationService.create_message\<close> gives a new message the largest
  sequence number among all messages of its conversation, soft-deleted ones included,
  plus 1, and 1 when the conversation has none.  Consequently, after any history of
  service calls on a store that starts without messages, the messages of a conversation,
  soft-deleted ones included, carry exactly the numbers 1..N in order, and those that
  are not deleted carry strictly increasing numbers (no duplicates; a gap wherever a
  message was soft-deleted).
\<close>

theorem sequence_numbering:
  assumes "messages s0 = []"
  shows "map_option msg_sequence_number
           (fst (create_message (run_calls calls s0) cid uid role content tool_calls now))
           = map_option (\<lambda>c. case max_sequence (run_calls calls s0) cid of
                                None \<Rightarrow> 1 | Some m \<Rightarrow> m + 1)
               (get_conversation (run_calls calls s0) cid uid) \<and>
         map msg_sequence_number (get_conversation_history (run_calls calls s0) cid uid True)
           = [1 .. int (length (get_conversation_history (run_calls calls s0) cid uid True))] \<and>
         sorted_wrt (<)
           (map msg_sequence_number (get_conversation_history (run_calls calls s0) cid uid False))"
proof -
  have inv: "numbered (run_calls calls s0)"
    by (rule numbered_run_calls[OF numbered_no_messages[OF assms]])
  have new: "map_option msg_sequence_number (fst (create_message s cid uid role content tool_calls now))
           = map_option (\<lambda>c. case max_sequence s cid of None \<Rightarrow> 1 | Some m \<Rightarrow> m + 1)
               (get_conversation s cid uid)" for s
    by (cases "get_conversation s cid uid")
       (simp_all add: create_message_def get_next_sequence_number_def Let_def)
  from new history_all_numbers[OF inv] history_active_increasing[OF inv]
  show ?thesis by blast
qed

theorem sequence_numbering_witness:
  "map msg_sequence_number
     (get_conversation_history (run_calls sample_calls empty_chat_store) 1 1 True) = [1, 2, 3] \<and>
   map_option msg_sequence_number
     (fst (create_message (run_calls sample_calls empty_chat_store) 1 1 USER ''thanks'' None 105))
     = Some 4 \<and>
   sorted_wrt (<)
     (map msg_sequence_number
        (get_conversation_history (run_calls sample_calls empty_chat_store) 1 1 False))"
proof -
  have e: "messages empty_chat_store = []" by (simp add: empty_chat_store_def)
  have len: "length (get_conversation_history (run_calls sample_calls empty_chat_store) 1 1 True) = 3"
    and conv: "get_conversation (run_calls sample_calls empty_chat_store) 1 1 \<noteq> None"
    and mx: "max_sequence (run_calls sample_calls empty_chat_store) 1 = Some 3"
    by (simp_all add: sample_calls_def run_calls_def empty_chat_store_def create_conversation_def
       create_message_def soft_delete_message_def get_conversation_def get_conversation_history_def
       get_next_sequence_number_def max_sequence_def sequence_numbers_def Let_def)
  have up: "[1 .. (3::int)] = [1, 2, 3]" by (simp add: upto_rec1)
  from sequence_numbering[OF e, of sample_calls 1 1 USER "''thanks''" None 105] conv
  show ?thesis unfolding len mx by (auto simp: up)
qed

text \<open>
  As long as no message of a conversation is soft-deleted, the number the chat endpoints
  compute is the one \<open>create_message\<close> would assign.
\<close>

lemma next_sequence_number_agrees:
  assumes "messages s0 = []"
    and "list_all (\<lambda>m. msg_conversation_id m = cid \<longrightarrow> msg_deleted_at m = None)
           (messages (run_calls calls s0))"
  shows "next_sequence_number (run_calls calls s0) cid
       = get_next_sequence_number (run_calls calls s0) cid"
proof -
  let ?s = "run_calls calls s0"
  have "numbered ?s" by (rule numbered_run_calls[OF numbered_no_messages[OF assms(1)]])
  then have "sequence_numbers ?s cid = [1 .. int (length (sequence_numbers ?s cid))]"
    by (simp add: numbered_def)
  then have "get_next_sequence_number ?s cid = int (length (sequence_numbers ?s cid)) + 1"
    by (rule next_of_numbered)
  moreover from assms(2)
  have "filter (\<lambda>m. msg_conversation_id m = cid \<and> msg_deleted_at m = None) (messages ?s)
      = filter (\<lambda>m. msg_conversation_id m = cid) (messages ?s)"
    by (intro filter_cong) (auto simp: list_all_iff)
  then have "existing_message_count ?s cid = length (sequence_numbers ?s cid)"
    by (simp add: existing_message_count_def sequence_numbers_def)
  ultimately show ?thesis by (simp add: next_sequence_number_def)
qed

section \<open>The streaming endpoint\<close>

lemma load_cohere: "load_global ''CohereAgentService'' = Inl (NameError ''CohereAgentService'')"
  by (simp add: load_global_def chat_module_names_def)

text \<open>
  C9. The streaming endpoint (the specification asks for content events and one terminal
  event with the metadata, and for the assistant message to be persisted).  The generator
  reads the global name \<open>CohereAgentService\<close>, which api/chat.py never imports: whatever
  the request, the only event is an error event, and no message but the user's is stored.
\<close>

theorem chat_stream_yields_only_an_error_event:
  "chat_stream 1 show_tasks_request 1 agent clock empty_chat_store
     = Inr ([[(''error'', JStr (''name '' @ [CHR 0x27] @ ''CohereAgentService'' @ [CHR 0x27]
                                  @ '' is not defined'')),
              (''done'', JBool True)]],
            \<lparr>conversations =
               [\<lparr>conv_id = 1, conv_user_id = 1, conv_title = None, conv_created_at = clock 0,
                 conv_updated_at = clock 1, conv_deleted_at = None\<rparr>],
             messages =
               [\<lparr>msg_id = 1, msg_conversation_id = 1, msg_role = USER,
                 msg_content = ''show my tasks'', msg_tool_calls = None,
                 msg_sequence_number = 1, msg_created_at = clock 2, msg_deleted_at = None\<rparr>],
             next_conversation_id = 2, next_message_id = 2\<rparr>) \<and>
   (case event_generator uid request agent clock s of
      (events, s') \<Rightarrow>
        (\<exists>msg. events = [error_event msg]) \<and>
        filter (\<lambda>m. msg_role m = ASSISTANT) (messages s')
          = filter (\<lambda>m. msg_role m = ASSISTANT) (messages s))"
proof -
  have concrete: "chat_stream 1 show_tasks_request 1 agent clock empty_chat_store
     = Inr ([[(''error'', JStr (''name '' @ [CHR 0x27] @ ''CohereAgentService'' @ [CHR 0x27]
                                  @ '' is not defined'')),
              (''done'', JBool True)]],
            \<lparr>conversations =
               [\<lparr>conv_id = 1, conv_user_id = 1, conv_title = None, conv_created_at = clock 0,
                 conv_updated_at = clock 1, conv_deleted_at = None\<rparr>],
             messages =
               [\<lparr>msg_id = 1, msg_conversation_id = 1, msg_role = USER,
                 msg_content = ''show my tasks'', msg_tool_calls = None,
                 msg_sequence_number = 1, msg_created_at = clock 2, msg_deleted_at = None\<rparr>],
             next_conversation_id = 2, next_message_id = 2\<rparr>)"
    by (simp add: chat_stream_def event_generator_def load_or_create_conversation_def
          show_tasks_request_def empty_chat_store_def insert_conversation_def insert_message_def
          next_sequence_number_def existing_message_count_def load_cohere error_event_def Let_def)
  have general: "(case event_generator uid request agent clock s of
      (events, s') \<Rightarrow>
        (\<exists>msg. events = [error_event msg]) \<and>
        filter (\<lambda>m. msg_role m = ASSISTANT) (messages s')
          = filter (\<lambda>m. msg_role m = ASSISTANT) (messages s))"
    by (auto simp: event_generator_def load_or_create_conversation_def insert_conversation_def
          insert_message_def load_cohere Let_def split: sum.splits option.splits)
  from concrete general show ?thesis by (rule conjI)
qed

end
